theory Spec2Isabelle
  imports Complex_Main "HOL-Library.AList"
begin

section \<open>JavaScript numbers\<close>

text \<open>
  The scraper computes with JavaScript numbers. A number is \<open>NaN\<close>, one of the two
  infinities, or a finite value, which is represented by the rational it denotes.
  Comparison of doubles is exact, so the gates of the filter pipeline are modelled
  exactly; the rounding of \<open>*\<close>, \<open>-\<close> and \<open>/\<close> is not modelled. The zero
  \<open>Fin 0\<close> stands for the positive zero: no value of the pipeline is a negative zero,
  since the numeric parser strips every sign.
\<close>

datatype jsnum = NaN | PosInf | NegInf | Fin rat

text \<open>The operator \<open><\<close>: false as soon as one side is \<open>NaN\<close>.\<close>

fun js_lt :: "jsnum \<Rightarrow> jsnum \<Rightarrow> bool" where
  "js_lt (Fin a) (Fin b) = (a < b)"
| "js_lt (Fin a) PosInf = True"
| "js_lt NegInf (Fin b) = True"
| "js_lt NegInf PosInf = True"
| "js_lt _ _ = False"

text \<open>The operator \<open><=\<close>.\<close>

fun js_le :: "jsnum \<Rightarrow> jsnum \<Rightarrow> bool" where
  "js_le NaN _ = False"
| "js_le _ NaN = False"
| "js_le (Fin a) (Fin b) = (a \<le> b)"
| "js_le NegInf _ = True"
| "js_le _ PosInf = True"
| "js_le _ _ = False"

text \<open>The operator \<open>===\<close> on numbers: \<open>NaN\<close> equals nothing, itself included.\<close>

fun js_eq :: "jsnum \<Rightarrow> jsnum \<Rightarrow> bool" where
  "js_eq NaN _ = False"
| "js_eq _ NaN = False"
| "js_eq a b = (a = b)"

fun js_mul :: "jsnum \<Rightarrow> jsnum \<Rightarrow> jsnum" where
  "js_mul NaN _ = NaN"
| "js_mul _ NaN = NaN"
| "js_mul (Fin a) (Fin b) = Fin (a * b)"
| "js_mul (Fin a) PosInf = (if a = 0 then NaN else if 0 < a then PosInf else NegInf)"
| "js_mul (Fin a) NegInf = (if a = 0 then NaN else if 0 < a then NegInf else PosInf)"
| "js_mul PosInf (Fin b) = (if b = 0 then NaN else if 0 < b then PosInf else NegInf)"
| "js_mul NegInf (Fin b) = (if b = 0 then NaN else if 0 < b then NegInf else PosInf)"
| "js_mul PosInf PosInf = PosInf"
| "js_mul PosInf NegInf = NegInf"
| "js_mul NegInf PosInf = NegInf"
| "js_mul NegInf NegInf = PosInf"

fun js_sub :: "jsnum \<Rightarrow> jsnum \<Rightarrow> jsnum" where
  "js_sub NaN _ = NaN"
| "js_sub _ NaN = NaN"
| "js_sub (Fin a) (Fin b) = Fin (a - b)"
| "js_sub (Fin a) PosInf = NegInf"
| "js_sub (Fin a) NegInf = PosInf"
| "js_sub PosInf (Fin b) = PosInf"
| "js_sub NegInf (Fin b) = NegInf"
| "js_sub PosInf PosInf = NaN"
| "js_sub NegInf NegInf = NaN"
| "js_sub PosInf NegInf = PosInf"
| "js_sub NegInf PosInf = NegInf"

text \<open>
  Division never throws: a finite value divided by zero is an infinity of the sign of
  the dividend, and \<open>0 / 0\<close> is \<open>NaN\<close>.
\<close>

fun js_div :: "jsnum \<Rightarrow> jsnum \<Rightarrow> jsnum" where
  "js_div NaN _ = NaN"
| "js_div _ NaN = NaN"
| "js_div (Fin a) (Fin b) =
     (if b = 0 then (if a = 0 then NaN else if 0 < a then PosInf else NegInf)
      else Fin (a / b))"
| "js_div (Fin a) PosInf = Fin 0"
| "js_div (Fin a) NegInf = Fin 0"
| "js_div PosInf (Fin b) = (if 0 \<le> b then PosInf else NegInf)"
| "js_div NegInf (Fin b) = (if 0 \<le> b then NegInf else PosInf)"
| "js_div PosInf PosInf = NaN"
| "js_div PosInf NegInf = NaN"
| "js_div NegInf PosInf = NaN"
| "js_div NegInf NegInf = NaN"

section \<open>Strings and the built-in parsers\<close>

text \<open>
  Text is a list of characters. The white space of \<open>trim\<close>, \<open>parseInt\<close> and
  \<open>parseFloat\<close> is tab, line feed, vertical tab, form feed, carriage return, space
  and the no-break space.
\<close>

definition isWhiteSpace :: "char \<Rightarrow> bool" where
  "isWhiteSpace c = (of_char c \<in> {9, 10, 11, 12, 13, 32, 160 :: nat})"

definition isDigit :: "char \<Rightarrow> bool" where
  "isDigit c = (c \<in> set ''0123456789'')"

definition digitVal :: "char \<Rightarrow> nat" where
  "digitVal c = of_char c - 48"

definition digitsValue :: "string \<Rightarrow> nat" where
  "digitsValue ds = foldl (\<lambda>acc c. 10 * acc + digitVal c) 0 ds"

definition trim :: "string \<Rightarrow> string" where
  "trim s = rev (dropWhile isWhiteSpace (rev (dropWhile isWhiteSpace s)))"

text \<open>\<open>toUpperCase\<close> on the letters \<open>a\<close> to \<open>z\<close>; every other character is kept.\<close>

definition toUpperChar :: "char \<Rightarrow> char" where
  "toUpperChar c =
     (case map_of (zip ''abcdefghijklmnopqrstuvwxyz'' ''ABCDEFGHIJKLMNOPQRSTUVWXYZ'') c of
        None \<Rightarrow> c
      | Some u \<Rightarrow> u)"

definition toUpperCase :: "string \<Rightarrow> string" where
  "toUpperCase s = map toUpperChar s"

definition endsWith :: "string \<Rightarrow> char \<Rightarrow> bool" where
  "endsWith s c = (s \<noteq> [] \<and> last s = c)"

definition includesChar :: "string \<Rightarrow> char \<Rightarrow> bool" where
  "includesChar s c = (c \<in> set s)"

definition pow10 :: "int \<Rightarrow> rat" where
  "pow10 e = (if 0 \<le> e then 10 ^ nat e else 1 / 10 ^ nat (- e))"

text \<open>
  The exponent part of a decimal literal: \<open>e\<close> or \<open>E\<close>, an optional sign and at least
  one digit; anything else is no exponent.
\<close>

definition exponentPart :: "string \<Rightarrow> int" where
  "exponentPart r =
     (case r of
        [] \<Rightarrow> 0
      | e # r1 \<Rightarrow>
          if e = CHR ''e'' \<or> e = CHR ''E'' then
            (case r1 of
               [] \<Rightarrow> 0
             | sg # r2 \<Rightarrow>
                 if sg = CHR ''-'' then
                   (if takeWhile isDigit r2 = [] then 0
                    else - int (digitsValue (takeWhile isDigit r2)))
                 else if sg = CHR ''+'' then
                   (if takeWhile isDigit r2 = [] then 0
                    else int (digitsValue (takeWhile isDigit r2)))
                 else int (digitsValue (takeWhile isDigit r1)))
          else 0)"

text \<open>
  \<open>parseFloat\<close> skips leading white space and reads the longest prefix that is a
  decimal literal: an optional sign, then \<open>Infinity\<close>, or digits with an optional
  fraction and exponent. Without such a prefix the result is \<open>NaN\<close>; it never throws.
\<close>

definition unsignedFloat :: "string \<Rightarrow> jsnum" where
  "unsignedFloat u =
     (if take 8 u = ''Infinity'' then PosInf
      else
        (let ip = takeWhile isDigit u;
             r1 = dropWhile isDigit u;
             hasDot = (r1 \<noteq> [] \<and> hd r1 = CHR ''.'');
             fp = (if hasDot then takeWhile isDigit (tl r1) else []);
             r2 = (if hasDot then dropWhile isDigit (tl r1) else r1)
         in if ip = [] \<and> fp = [] then NaN
            else Fin ((of_nat (digitsValue ip) + of_nat (digitsValue fp) / 10 ^ length fp)
                      * pow10 (exponentPart r2))))"

definition parseFloat :: "string \<Rightarrow> jsnum" where
  "parseFloat s =
     (case dropWhile isWhiteSpace s of
        [] \<Rightarrow> NaN
      | c # u \<Rightarrow>
          if c = CHR ''-'' then js_mul (Fin (- 1)) (unsignedFloat u)
          else if c = CHR ''+'' then unsignedFloat u
          else unsignedFloat (c # u))"

section \<open>Numeric parser\<close>

text \<open>
  The scraper reads the text of a metric and turns it into dollars, the same way for
  revenue, realized PnL and spend, in both scraper scripts:
  \<^verbatim>\<open>
  const revenueValue = (await revenueValueSpan.textContent()) || '0';
  const cleanRevenueValue = revenueValue.replace(/[^0-9MKk.]/g, '');
  let revenueDollars = parseFloat(cleanRevenueValue);
  if (cleanRevenueValue.toUpperCase().endsWith('M')) revenueDollars *= 1000000;
  else if (cleanRevenueValue.toUpperCase().endsWith('K')) revenueDollars *= 1000;
  \<close>
  \<open>textContent\<close> is a string or \<open>null\<close>; \<open>null\<close> and the empty string are replaced
  by \<open>'0'\<close>.
\<close>

definition orZero :: "string option \<Rightarrow> string" where
  "orZero textContent =
     (case textContent of None \<Rightarrow> ''0'' | Some s \<Rightarrow> if s = [] then ''0'' else s)"

definition keptChar :: "char \<Rightarrow> bool" where
  "keptChar c = (isDigit c \<or> c = CHR ''M'' \<or> c = CHR ''K'' \<or> c = CHR ''k'' \<or> c = CHR ''.'')"

definition cleanValue :: "string \<Rightarrow> string" where
  "cleanValue v = filter keptChar v"

definition parseDollars :: "string option \<Rightarrow> jsnum" where
  "parseDollars textContent =
     (let clean = cleanValue (orZero textContent);
          dollars = parseFloat clean
      in if endsWith (toUpperCase clean) (CHR ''M'') then js_mul dollars (Fin 1000000)
         else if endsWith (toUpperCase clean) (CHR ''K'') then js_mul dollars (Fin 1000)
         else dollars)"


text \<open>
  \<open>parseInt\<close> without a radix skips leading white space, takes an optional sign, takes
  \<open>0x\<close> or \<open>0X\<close> as the mark of a hexadecimal number, and reads the longest run of
  digits of the radix; with no digit the result is \<open>NaN\<close>.
\<close>

definition hexVal :: "char \<Rightarrow> nat option" where
  "hexVal c =
     map_of (zip ''0123456789abcdefABCDEF''
                 [0, 1, 2, 3, 4, 5, 6, 7, 8, 9, 10, 11, 12, 13, 14, 15, 10, 11, 12, 13, 14, 15]) c"

definition isHexDigit :: "char \<Rightarrow> bool" where
  "isHexDigit c = (hexVal c \<noteq> None)"

definition hexValue :: "string \<Rightarrow> nat" where
  "hexValue ds = foldl (\<lambda>acc c. 16 * acc + (case hexVal c of None \<Rightarrow> 0 | Some d \<Rightarrow> d)) 0 ds"

definition unsignedInt :: "string \<Rightarrow> jsnum" where
  "unsignedInt u =
     (if take 2 u = ''0x'' \<or> take 2 u = ''0X'' then
        (if takeWhile isHexDigit (drop 2 u) = [] then NaN
         else Fin (of_nat (hexValue (takeWhile isHexDigit (drop 2 u)))))
      else if takeWhile isDigit u = [] then NaN
      else Fin (of_nat (digitsValue (takeWhile isDigit u))))"

definition parseInt :: "string \<Rightarrow> jsnum" where
  "parseInt s =
     (case dropWhile isWhiteSpace s of
        [] \<Rightarrow> NaN
      | c # u \<Rightarrow>
          if c = CHR ''-'' then js_mul (Fin (- 1)) (unsignedInt u)
          else if c = CHR ''+'' then unsignedInt u
          else unsignedInt (c # u))"

section \<open>Trade-timing classifier\<close>

text \<open>
  A read of the page either yields its value or throws after its bounded wait.
\<close>

datatype 'a awaited = TimedOut | Got 'a

record timeGroups =
  seconds :: "string list"
  lessThan30m :: "string list"
  moreThan30m :: "string list"
  lessThan2h :: "string list"
  moreThan2h :: "string list"
  days :: "string list"
  weeks :: "string list"

definition emptyGroups :: timeGroups where
  "emptyGroups =
     \<lparr>seconds = [], lessThan30m = [], moreThan30m = [], lessThan2h = [], moreThan2h = [],
      days = [], weeks = []\<rparr>"

text \<open>
  The body of the loop over the rows of the trade table, for the text of one row
  (\<open>spanText?.trim() || ''\<close>, then the chain of \<open>includes\<close> tests in the order of the
  source). A text that matches no branch is logged and pushed nowhere.
\<close>

definition trimmedText :: "string option \<Rightarrow> string" where
  "trimmedText spanText = (case spanText of None \<Rightarrow> [] | Some s \<Rightarrow> trim s)"

definition groupTrade :: "string option \<Rightarrow> timeGroups \<Rightarrow> timeGroups" where
  "groupTrade spanText g =
     (let t = trimmedText spanText in
      if includesChar t (CHR ''s'') then g\<lparr>seconds := seconds g @ [t]\<rparr>
      else if includesChar t (CHR ''m'') then
        (if js_lt (parseInt t) (Fin 30)
         then g\<lparr>lessThan30m := lessThan30m g @ [t]\<rparr>
         else g\<lparr>moreThan30m := moreThan30m g @ [t]\<rparr>)
      else if includesChar t (CHR ''h'') then
        (if js_lt (parseInt t) (Fin 2)
         then g\<lparr>lessThan2h := lessThan2h g @ [t]\<rparr>
         else g\<lparr>moreThan2h := moreThan2h g @ [t]\<rparr>)
      else if includesChar t (CHR ''d'') then g\<lparr>days := days g @ [t]\<rparr>
      else if includesChar t (CHR ''w'') then g\<lparr>weeks := weeks g @ [t]\<rparr>
      else g)"

text \<open>
  The loop itself: reading the text of a row can throw, which leaves the loop and the
  whole evaluation of the row (result \<open>None\<close>).
\<close>

fun groupTrades :: "string option awaited list \<Rightarrow> timeGroups \<Rightarrow> timeGroups option" where
  "groupTrades [] g = Some g"
| "groupTrades (TimedOut # rows) g = None"
| "groupTrades (Got spanText # rows) g = groupTrades rows (groupTrade spanText g)"

definition highestCount :: "timeGroups \<Rightarrow> nat" where
  "highestCount g =
     max (length (lessThan30m g))
       (max (length (moreThan30m g))
         (max (length (lessThan2h g))
           (max (length (moreThan2h g))
             (max (length (days g)) (length (weeks g))))))"

definition mostlySeconds :: "timeGroups \<Rightarrow> bool" where
  "mostlySeconds g = (highestCount g < length (seconds g))"

section \<open>State store\<close>

text \<open>
  The documents on disk and the detail modal of the page. A document that is missing or
  does not parse is \<open>None\<close>. A write that fails is logged and changes nothing;
  \<open>diskWritable\<close> says whether writes succeed. \<open>tokenWrites\<close> is the trace of the
  successful writes of the processed-token document, oldest first.
\<close>

record portfolioData =
  roi :: jsnum
  pnl :: jsnum
  link :: string

record world =
  modalOpen :: bool
  statsFile :: "nat option"
  processedTokensFile :: "string list option"
  portfoliosFile :: "(string \<times> portfolioData) list option"
  diskWritable :: bool
  tokenWrites :: "string list list"

text \<open>A JavaScript \<open>Set\<close> of strings: its elements in insertion order.\<close>

definition setHas :: "string list \<Rightarrow> string \<Rightarrow> bool" where
  "setHas tokens x = (x \<in> set tokens)"

definition setAdd :: "string list \<Rightarrow> string \<Rightarrow> string list" where
  "setAdd tokens x = (if x \<in> set tokens then tokens else tokens @ [x])"

definition newSet :: "string list \<Rightarrow> string list" where
  "newSet arr = foldl setAdd [] arr"

definition loadProcessedTokens :: "world \<Rightarrow> string list" where
  "loadProcessedTokens w =
     (case processedTokensFile w of None \<Rightarrow> [] | Some arr \<Rightarrow> newSet arr)"

definition saveProcessedTokens :: "string list \<Rightarrow> world \<Rightarrow> world" where
  "saveProcessedTokens tokens w =
     (if diskWritable w
      then w\<lparr>processedTokensFile := Some tokens, tokenWrites := tokenWrites w @ [tokens]\<rparr>
      else w)"

definition loadStats :: "world \<Rightarrow> nat" where
  "loadStats w = (case statsFile w of None \<Rightarrow> 0 | Some portfoliosChecked \<Rightarrow> portfoliosChecked)"

definition saveStats :: "nat \<Rightarrow> world \<Rightarrow> world" where
  "saveStats portfoliosChecked w =
     (if diskWritable w then w\<lparr>statsFile := Some portfoliosChecked\<rparr> else w)"

definition incrementPortfoliosChecked :: "world \<Rightarrow> world" where
  "incrementPortfoliosChecked w = saveStats (loadStats w + 1) w"

definition savePortfolio :: "string \<Rightarrow> portfolioData \<Rightarrow> world \<Rightarrow> world" where
  "savePortfolio portfolioId portfolioData w =
     (let portfolios = (case portfoliosFile w of None \<Rightarrow> [] | Some m \<Rightarrow> m) in
      if diskWritable w
      then w\<lparr>portfoliosFile := Some (AList.update portfolioId portfolioData portfolios)\<rparr>
      else w)"


section \<open>Run configuration and the two scraper scripts\<close>

text \<open>
  The repository holds two copies of the scraper: the production script, which keeps the
  processed-token and statistics documents, and an earlier exploratory script, which has
  neither document nor the profitability-sample gate and scrolls longer. The counts of
  the configuration are natural numbers.
\<close>

datatype variant = Production | Exploratory

record config =
  MIN_PNL :: jsnum
  MIN_ROI :: jsnum
  MAX_TOKENS_TO_PROCESS :: nat
  MAX_TRADERS_PER_TOKEN :: nat
  START_FROM_ROW :: nat

definition maxScrollAttempts :: "variant \<Rightarrow> nat" where
  "maxScrollAttempts v = (case v of Production \<Rightarrow> 5 | Exploratory \<Rightarrow> 20)"

section \<open>Table navigator: the progressive scroll loop\<close>

text \<open>
  \<^verbatim>\<open>
  let isRowPresent = false;
  let scrollAttempts = 0;
  while (!isRowPresent && scrollAttempts < maxScrollAttempts) {
      isRowPresent = await page.waitForSelector(rowSelector, { timeout: 1000 })
          .then(() => true).catch(() => false);
      if (isRowPresent) break;
      await page.evaluate(...scrollTop += 300...);
      await page.waitForTimeout(500);
      scrollAttempts++;
  }
  \<close>
  The page is the function \<open>present\<close>: \<open>present k\<close> says whether the target row is in
  the page after \<open>k\<close> scroll steps. The loop returns its two variables.
\<close>

function scrollLoop :: "(nat \<Rightarrow> bool) \<Rightarrow> nat \<Rightarrow> bool \<Rightarrow> nat \<Rightarrow> bool \<times> nat" where
  "scrollLoop present maxAttempts isRowPresent scrollAttempts =
     (if \<not> isRowPresent \<and> scrollAttempts < maxAttempts then
        (if present scrollAttempts then (True, scrollAttempts)
         else scrollLoop present maxAttempts False (scrollAttempts + 1))
      else (isRowPresent, scrollAttempts))"
  by pat_completeness auto
termination
  by (relation "measure (\<lambda>(present, maxAttempts, isRowPresent, scrollAttempts).
        maxAttempts - scrollAttempts)") auto

declare scrollLoop.simps [simp del]

section \<open>Detail extractor and filter pipeline\<close>

text \<open>
  What the page shows for one synthetic row position: the presence of the row while
  scrolling, its Solscan link and the element under it, the three metrics (each read
  after a bounded wait for its loading placeholder to go), the portfolio link of the
  modal, the rows of the trade table, the tab of the most profitable trades and its
  rows.
\<close>

record rowView =
  rowPresent :: "nat \<Rightarrow> bool"
  hasSolscanLink :: bool
  divUnderLinkCount :: nat
  revenueValue :: "string option awaited"
  pnlValue :: "string option awaited"
  spentValue :: "string option awaited"
  portfolioHref :: "string awaited"
  tradeRows :: "string option awaited list"
  mostProfitableDiv :: bool
  mostProfitRows :: "string option awaited list"

datatype outcome =
    RowNotFound | NoSolscanLink | NoDivUnderLink | PnlTooLow | RoiTooLow | MostlySeconds
  | NoMostProfitable | NotEnoughRows | TooManyZeros | Accepted | RowError

definition closeModal :: "world \<Rightarrow> world" where
  "closeModal w = w\<lparr>modalOpen := False\<rparr>"

text \<open>Only the production script counts the rows it has checked.\<close>

definition countRow :: "variant \<Rightarrow> world \<Rightarrow> world" where
  "countRow v w = (case v of Production \<Rightarrow> incrementPortfoliosChecked w | Exploratory \<Rightarrow> w)"

definition computeRoi :: "jsnum \<Rightarrow> jsnum \<Rightarrow> jsnum" where
  "computeRoi revenueDollars spentDollars =
     js_mul (js_div (js_sub revenueDollars spentDollars) spentDollars) (Fin 100)"

text \<open>
  The first group of \<open>secondCell.match(/\$?\s*([\d.]+)/)\<close>: the dollar sign and the white
  space are optional, so the leftmost match captures the first maximal run of digits and
  dots of the text; without such a run there is no match.
\<close>

definition isDigitOrDot :: "char \<Rightarrow> bool" where
  "isDigitOrDot c = (isDigit c \<or> c = CHR ''.'')"

definition numberMatch :: "string \<Rightarrow> string option" where
  "numberMatch secondCell =
     (if dropWhile (\<lambda>c. \<not> isDigitOrDot c) secondCell = [] then None
      else Some (takeWhile isDigitOrDot (dropWhile (\<lambda>c. \<not> isDigitOrDot c) secondCell)))"

text \<open>
  The loop over the rows of the most profitable trades; a read that throws is caught
  inside the loop and the row is skipped.
\<close>

fun collectNumbers :: "string option awaited list \<Rightarrow> jsnum list" where
  "collectNumbers [] = []"
| "collectNumbers (TimedOut # rows) = collectNumbers rows"
| "collectNumbers (Got None # rows) = collectNumbers rows"
| "collectNumbers (Got (Some secondCell) # rows) =
     (case numberMatch secondCell of
        None \<Rightarrow> collectNumbers rows
      | Some m \<Rightarrow> parseFloat m # collectNumbers rows)"

definition zeroCount :: "jsnum list \<Rightarrow> nat" where
  "zeroCount numbers = length (filter (\<lambda>num. js_eq num (Fin 0)) numbers)"

text \<open>
  The end of the evaluation of a row, after the timing gate: the profitability-sample
  gate (production script only), the write of the portfolio and the close of the modal.
  The portfolio identifier is the part of the link of the modal after \<open>/portfolio/\<close>;
  \<open>roiValue\<close> is the variable \<open>roi\<close> of the source.
\<close>

definition sampleAndSave ::
  "variant \<Rightarrow> rowView \<Rightarrow> jsnum \<Rightarrow> jsnum \<Rightarrow> string \<Rightarrow> world \<Rightarrow> outcome \<times> world" where
  "sampleAndSave v view roiValue pnlDollars portfolioId w =
     (let portfolioData =
            \<lparr>roi = roiValue, pnl = pnlDollars, link = ''http://neo.bullx.io/portfolio/'' @ portfolioId\<rparr>
      in case v of
        Exploratory \<Rightarrow> (Accepted, closeModal (savePortfolio portfolioId portfolioData w))
      | Production \<Rightarrow>
          if \<not> mostProfitableDiv view then (NoMostProfitable, closeModal w)
          else if length (mostProfitRows view) < 10
            then (NotEnoughRows, incrementPortfoliosChecked (closeModal w))
          else if 3 < zeroCount (collectNumbers (mostProfitRows view))
            then (TooManyZeros, incrementPortfoliosChecked (closeModal w))
          else (Accepted,
                incrementPortfoliosChecked (closeModal (savePortfolio portfolioId portfolioData w))))"

text \<open>
  The body of the row loop once the row is in the page. A click on the element under the
  Solscan link opens the detail modal; every read that throws ends the evaluation in the
  handler of the row, which logs the error and goes on with the next row.
\<close>

definition evaluateRow :: "variant \<Rightarrow> config \<Rightarrow> rowView \<Rightarrow> world \<Rightarrow> outcome \<times> world" where
  "evaluateRow v cfg view w =
     (if \<not> hasSolscanLink view then (NoSolscanLink, countRow v w)
      else if divUnderLinkCount view = 0 then (NoDivUnderLink, countRow v w)
      else
        (let w1 = w\<lparr>modalOpen := True\<rparr> in
         case revenueValue view of
           TimedOut \<Rightarrow> (RowError, w1)
         | Got revenueText \<Rightarrow>
         (case pnlValue view of
           TimedOut \<Rightarrow> (RowError, w1)
         | Got pnlText \<Rightarrow>
         (let revenueDollars = parseDollars revenueText;
              pnlDollars = parseDollars pnlText
          in if js_lt pnlDollars (MIN_PNL cfg) then (PnlTooLow, closeModal (countRow v w1))
          else
         (case spentValue view of
           TimedOut \<Rightarrow> (RowError, w1)
         | Got spentText \<Rightarrow>
         (let spentDollars = parseDollars spentText;
              roiValue = computeRoi revenueDollars spentDollars
          in if js_lt roiValue (MIN_ROI cfg) then (RoiTooLow, closeModal (countRow v w1))
          else
         (case portfolioHref view of
           TimedOut \<Rightarrow> (RowError, w1)
         | Got pid \<Rightarrow>
         (case groupTrades (tradeRows view) emptyGroups of
           None \<Rightarrow> (RowError, w1)
         | Some timeGroups \<Rightarrow>
             if highestCount timeGroups < length (seconds timeGroups)
             then (MostlySeconds, closeModal (countRow v w1))
             else sampleAndSave v view roiValue pnlDollars pid w1))))))))"

text \<open>One iteration of the row loop: the scroll loop, then the evaluation.\<close>

definition processRow :: "variant \<Rightarrow> config \<Rightarrow> rowView \<Rightarrow> world \<Rightarrow> outcome \<times> world" where
  "processRow v cfg view w =
     (if fst (scrollLoop (rowPresent view) (maxScrollAttempts v) False 0)
      then evaluateRow v cfg view w
      else (RowNotFound, w))"

section \<open>Run orchestrator\<close>

text \<open>
  The loop over the synthetic row positions of one token, from \<open>START_FROM_ROW\<close> to
  \<open>MAX_TRADERS_PER_TOKEN\<close>; a row that is not found ends it. The result lists the
  outcomes of the rows.
\<close>

function rowLoop ::
  "variant \<Rightarrow> config \<Rightarrow> (nat \<Rightarrow> rowView) \<Rightarrow> nat \<Rightarrow> world \<Rightarrow> outcome list \<times> world" where
  "rowLoop v cfg views rowNumber w =
     (if rowNumber \<le> MAX_TRADERS_PER_TOKEN cfg then
        (case processRow v cfg (views rowNumber) w of
           (out, w') \<Rightarrow>
             if out = RowNotFound then ([out], w')
             else (case rowLoop v cfg views (rowNumber + 1) w' of
                     (outs, w'') \<Rightarrow> (out # outs, w'')))
      else ([], w))"
  by pat_completeness auto
termination
  by (relation "measure (\<lambda>(v, cfg, views, rowNumber, w).
        MAX_TRADERS_PER_TOKEN cfg + 1 - rowNumber)") auto

declare rowLoop.simps [simp del]

text \<open>
  What the page shows for one token: the name spans of the rows of the listing (a row
  without the span is \<open>None\<close>), whether a navigation or click outside the handler of a
  row throws, whether Solscan links appear in the table of top traders, and the views of
  its rows.
\<close>

record tokenPage =
  availableRows :: "string option option list"
  navigationFails :: bool
  solscanLinksAppear :: bool
  traderViews :: "nat \<Rightarrow> rowView"

text \<open>
  The selection of the next token: the first row whose name is not empty and not yet
  processed. The name is added to the set, and the production script writes the set
  at once.
\<close>

fun selectToken ::
  "variant \<Rightarrow> string option option list \<Rightarrow> string list \<Rightarrow> world
     \<Rightarrow> string option \<times> string list \<times> world" where
  "selectToken v [] processedTokenNames w = (None, processedTokenNames, w)"
| "selectToken v (None # rows) processedTokenNames w = selectToken v rows processedTokenNames w"
| "selectToken v (Some textContent # rows) processedTokenNames w =
     (let tokenName = (case textContent of None \<Rightarrow> [] | Some s \<Rightarrow> s) in
      if tokenName \<noteq> [] \<and> \<not> setHas processedTokenNames tokenName then
        (Some tokenName, setAdd processedTokenNames tokenName,
         (case v of
            Production \<Rightarrow> saveProcessedTokens (setAdd processedTokenNames tokenName) w
          | Exploratory \<Rightarrow> w))
      else selectToken v rows processedTokenNames w)"

datatype runEnd = Drained | Crashed

text \<open>
  The loop over the tokens. Going back to the listing reloads the page, which removes an
  open modal. An error outside the handler of a row ends the run.
\<close>

function tokenLoop ::
  "variant \<Rightarrow> config \<Rightarrow> nat \<Rightarrow> (nat \<Rightarrow> tokenPage) \<Rightarrow> nat \<Rightarrow> string list \<Rightarrow> world
     \<Rightarrow> runEnd \<times> string list \<times> world" where
  "tokenLoop v cfg bound pages tokenIndex processedTokenNames w =
     (if tokenIndex < bound then
        (if navigationFails (pages tokenIndex) then (Crashed, processedTokenNames, w)
         else
           (case selectToken v (availableRows (pages tokenIndex)) processedTokenNames
                   (if 0 < tokenIndex then closeModal w else w) of
              (None, names, w1) \<Rightarrow> (Drained, names, w1)
            | (Some selectedTokenName, names, w1) \<Rightarrow>
                if \<not> solscanLinksAppear (pages tokenIndex)
                then tokenLoop v cfg bound pages (tokenIndex + 1) names w1
                else tokenLoop v cfg bound pages (tokenIndex + 1) names
                       (snd (rowLoop v cfg (traderViews (pages tokenIndex)) (START_FROM_ROW cfg) w1))))
      else (Drained, processedTokenNames, w))"
  by pat_completeness auto
termination
  by (relation "measure (\<lambda>(v, cfg, bound, pages, tokenIndex, names, w). bound - tokenIndex)") auto

declare tokenLoop.simps [simp del]

text \<open>
  The run: the production script loads the processed tokens first and writes them once
  more at the end, unless the run has ended in an error.
\<close>

definition mainRun ::
  "variant \<Rightarrow> config \<Rightarrow> nat \<Rightarrow> (nat \<Rightarrow> tokenPage) \<Rightarrow> world \<Rightarrow> runEnd \<times> string list \<times> world" where
  "mainRun v cfg tokenRowsCount pages w =
     (case tokenLoop v cfg (min tokenRowsCount (MAX_TOKENS_TO_PROCESS cfg)) pages 0
             (case v of Production \<Rightarrow> loadProcessedTokens w | Exploratory \<Rightarrow> []) w of
        (Crashed, names, w') \<Rightarrow> (Crashed, names, w')
      | (Drained, names, w') \<Rightarrow>
          (Drained, names,
           (case v of Production \<Rightarrow> saveProcessedTokens names w' | Exploratory \<Rightarrow> w')))"


section \<open>Sample inputs\<close>

text \<open>The thresholds the production script falls back to when the environment sets none.\<close>

definition defaultConfig :: config where
  "defaultConfig =
     \<lparr>MIN_PNL = Fin 25000, MIN_ROI = Fin 2000, MAX_TOKENS_TO_PROCESS = 10,
      MAX_TRADERS_PER_TOKEN = 20, START_FROM_ROW = 3\<rparr>"

definition freshWorld :: world where
  "freshWorld =
     \<lparr>modalOpen = False, statsFile = Some 0, processedTokensFile = None,
      portfoliosFile = None, diskWritable = True, tokenWrites = []\<rparr>"

text \<open>
  A row that clears every gate at the default thresholds: revenue 21M on a spend of 1M
  (ROI 2000), PnL 1.6M, trades aged days and weeks, ten profitable trades.
\<close>

definition goodView :: rowView where
  "goodView =
     \<lparr>rowPresent = (\<lambda>k. True), hasSolscanLink = True, divUnderLinkCount = 1,
      revenueValue = Got (Some ''$21M''), pnlValue = Got (Some ''$1.6M''),
      spentValue = Got (Some ''$1M''), portfolioHref = Got ''7xKp'',
      tradeRows = [Got (Some ''3d''), Got (Some ''2w''), Got (Some ''5s'')],
      mostProfitableDiv = True,
      mostProfitRows = replicate 10 (Got (Some ''$ 12.5''))\<rparr>"


text \<open>The same row when the revenue stays behind its loading placeholder.\<close>

definition stuckView :: rowView where
  "stuckView = goodView\<lparr>revenueValue := TimedOut\<rparr>"


text \<open>The same row with the trade ages of the timing example.\<close>

definition botView :: rowView where
  "botView =
     goodView\<lparr>tradeRows :=
       [Got (Some ''5s''), Got (Some ''5s''), Got (Some ''5s''), Got (Some ''1m''), Got (Some ''2h'')]\<rparr>"

text \<open>A listing of two tokens, the first of which was processed by an earlier run.\<close>

definition samplePage :: tokenPage where
  "samplePage =
     \<lparr>availableRows = [None, Some (Some ''TOKEN_A''), Some None, Some (Some ''TOKEN_B'')],
      navigationFails = False, solscanLinksAppear = True,
      traderViews = (\<lambda>rowNumber. if rowNumber = 3 then goodView
                                   else goodView\<lparr>rowPresent := (\<lambda>k. False)\<rparr>)\<rparr>"

definition resumedWorld :: world where
  "resumedWorld = freshWorld\<lparr>processedTokensFile := Some [''TOKEN_A'', ''TOKEN_A'']\<rparr>"

section \<open>Facts about the numeric parser\<close>






























section \<open>The progressive scroll loop ends\<close>

lemma scrollLoop_absent:
  "\<forall>k. \<not> present k \<Longrightarrow> scrollAttempts \<le> maxAttempts \<Longrightarrow>
     scrollLoop present maxAttempts False scrollAttempts = (False, maxAttempts)"
proof (induction "maxAttempts - scrollAttempts" arbitrary: scrollAttempts)
  case 0
  then have "scrollAttempts = maxAttempts" by simp
  then show ?case by (subst scrollLoop.simps) simp
next
  case (Suc d)
  then have lt: "scrollAttempts < maxAttempts" by simp
  have "scrollLoop present maxAttempts False (scrollAttempts + 1) = (False, maxAttempts)"
    using Suc by (intro Suc.hyps(1)) auto
  then show ?case
    using lt Suc.prems(1) by (subst scrollLoop.simps) simp
qed

lemma scrollLoop_bound:
  "scrollAttempts \<le> maxAttempts \<Longrightarrow>
     snd (scrollLoop present maxAttempts isRowPresent scrollAttempts) \<le> maxAttempts"
proof (induction present maxAttempts isRowPresent scrollAttempts rule: scrollLoop.induct)
  case (1 present maxAttempts isRowPresent scrollAttempts)
  show ?case
  proof (cases "\<not> isRowPresent \<and> scrollAttempts < maxAttempts")
    case True
    show ?thesis
    proof (cases "present scrollAttempts")
      case p: True
      then show ?thesis using True "1.prems" by (subst scrollLoop.simps) simp
    next
      case p: False
      have "snd (scrollLoop present maxAttempts False (scrollAttempts + 1)) \<le> maxAttempts"
        using True p by (intro "1.IH") auto
      then show ?thesis using True p by (subst scrollLoop.simps) simp
    qed
  next
    case False
    then show ?thesis using "1.prems" by (subst scrollLoop.simps) auto
  qed
qed

text \<open>
  C8. The scroll loop is a total function: its recursion ends because the number of
  attempts left decreases. It never scrolls more often than the cap, which is 5 in the
  production script and 20 in the exploratory one; and when the target row never comes
  into the page it scrolls exactly that often and then reports that the row is not
  found, which ends the row loop of the token.
\<close>

theorem scroll_loop_bounded:
  "snd (scrollLoop present (maxScrollAttempts v) False 0) \<le> maxScrollAttempts v
   \<and> maxScrollAttempts Production = 5 \<and> maxScrollAttempts Exploratory = 20
   \<and> ((\<forall>k. \<not> rowPresent view k) \<longrightarrow>
        scrollLoop (rowPresent view) (maxScrollAttempts v) False 0 = (False, maxScrollAttempts v)
        \<and> processRow v cfg view w = (RowNotFound, w))"
proof -
  have "scrollLoop (rowPresent view) (maxScrollAttempts v) False 0 = (False, maxScrollAttempts v)
        \<and> processRow v cfg view w = (RowNotFound, w)"
    if "\<forall>k. \<not> rowPresent view k"
    using scrollLoop_absent [OF that, of 0 "maxScrollAttempts v"]
    by (simp add: processRow_def)
  then show ?thesis
    using scrollLoop_bound [of 0 "maxScrollAttempts v" present False]
    by (simp add: maxScrollAttempts_def)
qed

theorem scroll_loop_bounded_witness:
  "scrollLoop (\<lambda>k. False) 5 False 0 = (False, 5)
   \<and> processRow Production defaultConfig (goodView\<lparr>rowPresent := (\<lambda>k. False)\<rparr>) freshWorld
       = (RowNotFound, freshWorld)"
proof -
  have h: "\<forall>k. \<not> rowPresent (goodView\<lparr>rowPresent := (\<lambda>k. False)\<rparr>) k"
    by simp
  note t = scroll_loop_bounded [of "\<lambda>k. False" Production "goodView\<lparr>rowPresent := (\<lambda>k. False)\<rparr>"
      defaultConfig freshWorld, THEN conjunct2, THEN conjunct2, THEN conjunct2, THEN mp, OF h]
  have m: "maxScrollAttempts Production = 5"
    by (simp add: maxScrollAttempts_def)
  show ?thesis
    using t unfolding m by simp
qed

section \<open>Facts about the trade-timing classifier\<close>

lemma in_set_dropWhile: "x \<in> set xs \<Longrightarrow> \<not> P x \<Longrightarrow> x \<in> set (dropWhile P xs)"
  by (induction xs) auto

lemma in_set_trim:
  assumes "c \<in> set s" "\<not> isWhiteSpace c"
  shows "c \<in> set (trim s)"
proof -
  have "c \<in> set (dropWhile isWhiteSpace s)"
    using assms by (rule in_set_dropWhile)
  then have "c \<in> set (rev (dropWhile isWhiteSpace s))" by simp
  then have "c \<in> set (dropWhile isWhiteSpace (rev (dropWhile isWhiteSpace s)))"
    using assms(2) by (rule in_set_dropWhile)
  then show ?thesis by (simp add: trim_def)
qed

lemma set_trim_subset: "set (trim s) \<subseteq> set s"
proof -
  have "set (dropWhile isWhiteSpace (rev (dropWhile isWhiteSpace s)))
          \<subseteq> set (rev (dropWhile isWhiteSpace s))"
    by (rule set_dropWhileD [THEN subsetI])
  also have "\<dots> \<subseteq> set s"
    using set_dropWhileD [of _ isWhiteSpace s] by auto
  finally show ?thesis by (simp add: trim_def)
qed

lemma s_not_white: "\<not> isWhiteSpace (CHR ''s'')"
  by (simp add: isWhiteSpace_def)

lemma groupTrade_s:
  assumes "CHR ''s'' \<in> set ageText"
  shows "groupTrade (Some ageText) g = g\<lparr>seconds := seconds g @ [trim ageText]\<rparr>"
proof -
  have "CHR ''s'' \<in> set (trim ageText)"
    using assms s_not_white by (rule in_set_trim)
  then show ?thesis
    by (simp add: groupTrade_def trimmedText_def includesChar_def)
qed

text \<open>
  C9. An age text that contains the letter \<open>s\<close> is pushed to the seconds group,
  whatever else it contains, because the test for \<open>s\<close> comes first and the other
  tests are in its else branch: \<open>45 mins\<close> and \<open>3 days\<close> are counted as seconds.
\<close>

theorem seconds_letter_has_priority:
  "(includesChar ageText (CHR ''s'') \<longrightarrow>
      groupTrade (Some ageText) g = g\<lparr>seconds := seconds g @ [trim ageText]\<rparr>)
   \<and> groupTrades [Got (Some ''45 mins''), Got (Some ''3 days'')] emptyGroups
       = Some (emptyGroups\<lparr>seconds := [''45 mins'', ''3 days'']\<rparr>)"
proof -
  have "groupTrades [Got (Some ''45 mins''), Got (Some ''3 days'')] emptyGroups
       = Some (emptyGroups\<lparr>seconds := [''45 mins'', ''3 days'']\<rparr>)"
    by code_simp
  then show ?thesis
    using groupTrade_s [of ageText g] by (simp add: includesChar_def)
qed

theorem seconds_letter_has_priority_witness:
  "groupTrade (Some ''2 months'') emptyGroups = emptyGroups\<lparr>seconds := [''2 months'']\<rparr>"
proof -
  have h: "includesChar ''2 months'' (CHR ''s'')"
    by (simp add: includesChar_def)
  have t: "trim ''2 months'' = ''2 months''"
    by code_simp
  have e: "seconds emptyGroups = []"
    by (simp add: emptyGroups_def)
  show ?thesis
    using seconds_letter_has_priority [of "''2 months''" emptyGroups, THEN conjunct1, THEN mp, OF h]
    by (simp add: t e)
qed

section \<open>The groups of the trade-timing classifier\<close>

lemma groupTrade_fields:
  "seconds (groupTrade spanText g)
     = seconds g @ filter (\<lambda>t. CHR ''s'' \<in> set t) [trimmedText spanText]"
  "lessThan30m (groupTrade spanText g)
     = lessThan30m g @ filter (\<lambda>t. CHR ''s'' \<notin> set t \<and> CHR ''m'' \<in> set t
                                   \<and> js_lt (parseInt t) (Fin 30)) [trimmedText spanText]"
  "moreThan30m (groupTrade spanText g)
     = moreThan30m g @ filter (\<lambda>t. CHR ''s'' \<notin> set t \<and> CHR ''m'' \<in> set t
                                   \<and> \<not> js_lt (parseInt t) (Fin 30)) [trimmedText spanText]"
  "lessThan2h (groupTrade spanText g)
     = lessThan2h g @ filter (\<lambda>t. CHR ''s'' \<notin> set t \<and> CHR ''m'' \<notin> set t \<and> CHR ''h'' \<in> set t
                                  \<and> js_lt (parseInt t) (Fin 2)) [trimmedText spanText]"
  "moreThan2h (groupTrade spanText g)
     = moreThan2h g @ filter (\<lambda>t. CHR ''s'' \<notin> set t \<and> CHR ''m'' \<notin> set t \<and> CHR ''h'' \<in> set t
                                  \<and> \<not> js_lt (parseInt t) (Fin 2)) [trimmedText spanText]"
  "days (groupTrade spanText g)
     = days g @ filter (\<lambda>t. CHR ''s'' \<notin> set t \<and> CHR ''m'' \<notin> set t \<and> CHR ''h'' \<notin> set t
                            \<and> CHR ''d'' \<in> set t) [trimmedText spanText]"
  "weeks (groupTrade spanText g)
     = weeks g @ filter (\<lambda>t. CHR ''s'' \<notin> set t \<and> CHR ''m'' \<notin> set t \<and> CHR ''h'' \<notin> set t
                             \<and> CHR ''d'' \<notin> set t \<and> CHR ''w'' \<in> set t) [trimmedText spanText]"
  by (simp_all add: groupTrade_def Let_def includesChar_def)

lemma groupTrades_Got:
  "\<exists>g'. groupTrades (map Got spans) g = Some g'
     \<and> seconds g' = seconds g @ filter (\<lambda>t. CHR ''s'' \<in> set t) (map trimmedText spans)
     \<and> lessThan30m g' = lessThan30m g @ filter (\<lambda>t. CHR ''s'' \<notin> set t \<and> CHR ''m'' \<in> set t
                                   \<and> js_lt (parseInt t) (Fin 30)) (map trimmedText spans)
     \<and> moreThan30m g' = moreThan30m g @ filter (\<lambda>t. CHR ''s'' \<notin> set t \<and> CHR ''m'' \<in> set t
                                   \<and> \<not> js_lt (parseInt t) (Fin 30)) (map trimmedText spans)
     \<and> lessThan2h g' = lessThan2h g @ filter (\<lambda>t. CHR ''s'' \<notin> set t \<and> CHR ''m'' \<notin> set t
                                   \<and> CHR ''h'' \<in> set t \<and> js_lt (parseInt t) (Fin 2))
                                   (map trimmedText spans)
     \<and> moreThan2h g' = moreThan2h g @ filter (\<lambda>t. CHR ''s'' \<notin> set t \<and> CHR ''m'' \<notin> set t
                                   \<and> CHR ''h'' \<in> set t \<and> \<not> js_lt (parseInt t) (Fin 2))
                                   (map trimmedText spans)
     \<and> days g' = days g @ filter (\<lambda>t. CHR ''s'' \<notin> set t \<and> CHR ''m'' \<notin> set t \<and> CHR ''h'' \<notin> set t
                                   \<and> CHR ''d'' \<in> set t) (map trimmedText spans)
     \<and> weeks g' = weeks g @ filter (\<lambda>t. CHR ''s'' \<notin> set t \<and> CHR ''m'' \<notin> set t \<and> CHR ''h'' \<notin> set t
                                   \<and> CHR ''d'' \<notin> set t \<and> CHR ''w'' \<in> set t)
                                   (map trimmedText spans)"
proof (induction spans arbitrary: g)
  case Nil
  then show ?case by simp
next
  case (Cons spanText spans)
  obtain g' where g': "groupTrades (map Got spans) (groupTrade spanText g) = Some g'"
    and f: "seconds g' = seconds (groupTrade spanText g)
              @ filter (\<lambda>t. CHR ''s'' \<in> set t) (map trimmedText spans)"
      "lessThan30m g' = lessThan30m (groupTrade spanText g)
              @ filter (\<lambda>t. CHR ''s'' \<notin> set t \<and> CHR ''m'' \<in> set t
                           \<and> js_lt (parseInt t) (Fin 30)) (map trimmedText spans)"
      "moreThan30m g' = moreThan30m (groupTrade spanText g)
              @ filter (\<lambda>t. CHR ''s'' \<notin> set t \<and> CHR ''m'' \<in> set t
                           \<and> \<not> js_lt (parseInt t) (Fin 30)) (map trimmedText spans)"
      "lessThan2h g' = lessThan2h (groupTrade spanText g)
              @ filter (\<lambda>t. CHR ''s'' \<notin> set t \<and> CHR ''m'' \<notin> set t
                           \<and> CHR ''h'' \<in> set t \<and> js_lt (parseInt t) (Fin 2))
                           (map trimmedText spans)"
      "moreThan2h g' = moreThan2h (groupTrade spanText g)
              @ filter (\<lambda>t. CHR ''s'' \<notin> set t \<and> CHR ''m'' \<notin> set t
                           \<and> CHR ''h'' \<in> set t \<and> \<not> js_lt (parseInt t) (Fin 2))
                           (map trimmedText spans)"
      "days g' = days (groupTrade spanText g)
              @ filter (\<lambda>t. CHR ''s'' \<notin> set t \<and> CHR ''m'' \<notin> set t \<and> CHR ''h'' \<notin> set t
                           \<and> CHR ''d'' \<in> set t) (map trimmedText spans)"
      "weeks g' = weeks (groupTrade spanText g)
              @ filter (\<lambda>t. CHR ''s'' \<notin> set t \<and> CHR ''m'' \<notin> set t \<and> CHR ''h'' \<notin> set t
                           \<and> CHR ''d'' \<notin> set t \<and> CHR ''w'' \<in> set t)
                           (map trimmedText spans)"
    using Cons.IH [of "groupTrade spanText g"] by blast
  have "groupTrades (map Got (spanText # spans)) g = Some g'"
    using g' by simp
  then show ?case
    by (intro exI [of _ g']) (simp add: f groupTrade_fields)
qed

lemma highestCount_Max:
  "highestCount g =
     Max {length (lessThan30m g), length (moreThan30m g), length (lessThan2h g),
          length (moreThan2h g), length (days g), length (weeks g)}"
  by (simp add: highestCount_def)

lemma evaluateRow_reaches_timing:
  assumes "hasSolscanLink view" "divUnderLinkCount view \<noteq> 0"
    "revenueValue view = Got r" "pnlValue view = Got p" "spentValue view = Got sp"
    "portfolioHref view = Got h" "groupTrades (tradeRows view) emptyGroups = Some g"
    "mostlySeconds g"
  shows "fst (evaluateRow v cfg view w) \<in> {PnlTooLow, RoiTooLow, MostlySeconds}"
  using assms by (simp add: evaluateRow_def Let_def mostlySeconds_def)

lemma bot_sample:
  "groupTrades [Got (Some ''5s''), Got (Some ''5s''), Got (Some ''5s''), Got (Some ''1m''),
                Got (Some ''2h'')] emptyGroups
     = Some \<lparr>seconds = [''5s'', ''5s'', ''5s''], lessThan30m = [''1m''], moreThan30m = [],
             lessThan2h = [], moreThan2h = [''2h''], days = [], weeks = []\<rparr>"
  by code_simp

lemma bot_sample_mostly:
  "mostlySeconds \<lparr>seconds = [''5s'', ''5s'', ''5s''], lessThan30m = [''1m''], moreThan30m = [],
             lessThan2h = [], moreThan2h = [''2h''], days = [], weeks = []\<rparr>"
  "highestCount \<lparr>seconds = [''5s'', ''5s'', ''5s''], lessThan30m = [''1m''], moreThan30m = [],
             lessThan2h = [], moreThan2h = [''2h''], days = [], weeks = []\<rparr> = 1"
  by (simp_all add: mostlySeconds_def highestCount_def)

text \<open>
  C6. The classifier pushes the trimmed text of every row of the trade table to the
  group of the first test it passes: contains \<open>s\<close>; else contains \<open>m\<close>, split at 30;
  else contains \<open>h\<close>, split at 2; else contains \<open>d\<close>; else contains \<open>w\<close>. The timing
  gate rejects exactly when the seconds group is strictly longer than the longest of
  the six other groups. For the ages \<open>5s, 5s, 5s, 1m, 2h\<close> the seconds group has 3
  texts and the longest other group 1, so a row whose metrics were read is never
  accepted: it is rejected by the PnL gate, the ROI gate or the timing gate.
\<close>

theorem timing_classifier:
  "(\<exists>g. groupTrades (map Got spans) emptyGroups = Some g
     \<and> seconds g = filter (\<lambda>t. CHR ''s'' \<in> set t) (map trimmedText spans)
     \<and> lessThan30m g = filter (\<lambda>t. CHR ''s'' \<notin> set t \<and> CHR ''m'' \<in> set t
                                   \<and> js_lt (parseInt t) (Fin 30)) (map trimmedText spans)
     \<and> moreThan30m g = filter (\<lambda>t. CHR ''s'' \<notin> set t \<and> CHR ''m'' \<in> set t
                                   \<and> \<not> js_lt (parseInt t) (Fin 30)) (map trimmedText spans)
     \<and> lessThan2h g = filter (\<lambda>t. CHR ''s'' \<notin> set t \<and> CHR ''m'' \<notin> set t
                                   \<and> CHR ''h'' \<in> set t \<and> js_lt (parseInt t) (Fin 2))
                                   (map trimmedText spans)
     \<and> moreThan2h g = filter (\<lambda>t. CHR ''s'' \<notin> set t \<and> CHR ''m'' \<notin> set t
                                   \<and> CHR ''h'' \<in> set t \<and> \<not> js_lt (parseInt t) (Fin 2))
                                   (map trimmedText spans)
     \<and> days g = filter (\<lambda>t. CHR ''s'' \<notin> set t \<and> CHR ''m'' \<notin> set t \<and> CHR ''h'' \<notin> set t
                                   \<and> CHR ''d'' \<in> set t) (map trimmedText spans)
     \<and> weeks g = filter (\<lambda>t. CHR ''s'' \<notin> set t \<and> CHR ''m'' \<notin> set t \<and> CHR ''h'' \<notin> set t
                                   \<and> CHR ''d'' \<notin> set t \<and> CHR ''w'' \<in> set t)
                                   (map trimmedText spans))
   \<and> mostlySeconds g' =
       (Max {length (lessThan30m g'), length (moreThan30m g'), length (lessThan2h g'),
             length (moreThan2h g'), length (days g'), length (weeks g')}
          < length (seconds g'))
   \<and> groupTrades [Got (Some ''5s''), Got (Some ''5s''), Got (Some ''5s''), Got (Some ''1m''),
                   Got (Some ''2h'')] emptyGroups
       = Some \<lparr>seconds = [''5s'', ''5s'', ''5s''], lessThan30m = [''1m''], moreThan30m = [],
               lessThan2h = [], moreThan2h = [''2h''], days = [], weeks = []\<rparr>
   \<and> highestCount \<lparr>seconds = [''5s'', ''5s'', ''5s''], lessThan30m = [''1m''], moreThan30m = [],
               lessThan2h = [], moreThan2h = [''2h''], days = [], weeks = []\<rparr> = 1
   \<and> mostlySeconds \<lparr>seconds = [''5s'', ''5s'', ''5s''], lessThan30m = [''1m''],
               moreThan30m = [], lessThan2h = [], moreThan2h = [''2h''], days = [], weeks = []\<rparr>
   \<and> (hasSolscanLink view \<and> divUnderLinkCount view \<noteq> 0
        \<and> revenueValue view = Got r \<and> pnlValue view = Got p \<and> spentValue view = Got sp
        \<and> portfolioHref view = Got h
        \<and> tradeRows view = [Got (Some ''5s''), Got (Some ''5s''), Got (Some ''5s''),
                             Got (Some ''1m''), Got (Some ''2h'')]
        \<longrightarrow> fst (evaluateRow v cfg view w) \<in> {PnlTooLow, RoiTooLow, MostlySeconds})"
proof -
  have a: "\<exists>g. groupTrades (map Got spans) emptyGroups = Some g
     \<and> seconds g = filter (\<lambda>t. CHR ''s'' \<in> set t) (map trimmedText spans)
     \<and> lessThan30m g = filter (\<lambda>t. CHR ''s'' \<notin> set t \<and> CHR ''m'' \<in> set t
                                   \<and> js_lt (parseInt t) (Fin 30)) (map trimmedText spans)
     \<and> moreThan30m g = filter (\<lambda>t. CHR ''s'' \<notin> set t \<and> CHR ''m'' \<in> set t
                                   \<and> \<not> js_lt (parseInt t) (Fin 30)) (map trimmedText spans)
     \<and> lessThan2h g = filter (\<lambda>t. CHR ''s'' \<notin> set t \<and> CHR ''m'' \<notin> set t
                                   \<and> CHR ''h'' \<in> set t \<and> js_lt (parseInt t) (Fin 2))
                                   (map trimmedText spans)
     \<and> moreThan2h g = filter (\<lambda>t. CHR ''s'' \<notin> set t \<and> CHR ''m'' \<notin> set t
                                   \<and> CHR ''h'' \<in> set t \<and> \<not> js_lt (parseInt t) (Fin 2))
                                   (map trimmedText spans)
     \<and> days g = filter (\<lambda>t. CHR ''s'' \<notin> set t \<and> CHR ''m'' \<notin> set t \<and> CHR ''h'' \<notin> set t
                                   \<and> CHR ''d'' \<in> set t) (map trimmedText spans)
     \<and> weeks g = filter (\<lambda>t. CHR ''s'' \<notin> set t \<and> CHR ''m'' \<notin> set t \<and> CHR ''h'' \<notin> set t
                                   \<and> CHR ''d'' \<notin> set t \<and> CHR ''w'' \<in> set t)
                                   (map trimmedText spans)"
    using groupTrades_Got [of spans emptyGroups] by (simp add: emptyGroups_def)
  have b: "mostlySeconds g' =
       (Max {length (lessThan30m g'), length (moreThan30m g'), length (lessThan2h g'),
             length (moreThan2h g'), length (days g'), length (weeks g')}
          < length (seconds g'))"
    unfolding mostlySeconds_def highestCount_Max ..
  have c: "hasSolscanLink view \<and> divUnderLinkCount view \<noteq> 0
        \<and> revenueValue view = Got r \<and> pnlValue view = Got p \<and> spentValue view = Got sp
        \<and> portfolioHref view = Got h
        \<and> tradeRows view = [Got (Some ''5s''), Got (Some ''5s''), Got (Some ''5s''),
                             Got (Some ''1m''), Got (Some ''2h'')]
        \<longrightarrow> fst (evaluateRow v cfg view w) \<in> {PnlTooLow, RoiTooLow, MostlySeconds}"
  proof
    assume h: "hasSolscanLink view \<and> divUnderLinkCount view \<noteq> 0
        \<and> revenueValue view = Got r \<and> pnlValue view = Got p \<and> spentValue view = Got sp
        \<and> portfolioHref view = Got h
        \<and> tradeRows view = [Got (Some ''5s''), Got (Some ''5s''), Got (Some ''5s''),
                             Got (Some ''1m''), Got (Some ''2h'')]"
    then have "groupTrades (tradeRows view) emptyGroups
       = Some \<lparr>seconds = [''5s'', ''5s'', ''5s''], lessThan30m = [''1m''], moreThan30m = [],
               lessThan2h = [], moreThan2h = [''2h''], days = [], weeks = []\<rparr>"
      using bot_sample by simp
    then show "fst (evaluateRow v cfg view w) \<in> {PnlTooLow, RoiTooLow, MostlySeconds}"
      using h bot_sample_mostly(1) by (intro evaluateRow_reaches_timing) blast+
  qed
  show ?thesis
    using a b c bot_sample bot_sample_mostly by (intro conjI)
qed

theorem timing_classifier_witness:
  "fst (evaluateRow Production defaultConfig botView freshWorld) \<in> {PnlTooLow, RoiTooLow, MostlySeconds}
   \<and> fst (evaluateRow Production defaultConfig botView freshWorld) = MostlySeconds"
proof -
  have h: "hasSolscanLink botView \<and> divUnderLinkCount botView \<noteq> 0
        \<and> revenueValue botView = Got (Some ''$21M'') \<and> pnlValue botView = Got (Some ''$1.6M'')
        \<and> spentValue botView = Got (Some ''$1M'')
        \<and> portfolioHref botView = Got ''7xKp''
        \<and> tradeRows botView = [Got (Some ''5s''), Got (Some ''5s''), Got (Some ''5s''),
                             Got (Some ''1m''), Got (Some ''2h'')]"
    by (simp add: botView_def goodView_def)
  have e: "fst (evaluateRow Production defaultConfig botView freshWorld) = MostlySeconds"
    by code_simp
  note t = timing_classifier [of "[]" emptyGroups botView "Some ''$21M''" "Some ''$1.6M''"
      "Some ''$1M''" "''7xKp''" Production defaultConfig freshWorld,
      THEN conjunct2, THEN conjunct2, THEN conjunct2, THEN conjunct2, THEN conjunct2,
      THEN mp, OF h]
  show ?thesis
    using t e by (intro conjI)
qed

section \<open>Trade tables without a classifiable age\<close>

lemma groupTrade_unrecognized:
  assumes "\<forall>c\<in>set ''smhdw''. c \<notin> set (trimmedText spanText)"
  shows "groupTrade spanText g = g"
  using assms by (simp add: groupTrade_def Let_def includesChar_def)

lemma groupTrades_unrecognized:
  assumes "\<forall>r\<in>set rows. \<exists>spanText. r = Got spanText \<and> (\<forall>c\<in>set ''smhdw''. c \<notin> set (trimmedText spanText))"
  shows "groupTrades rows g = Some g"
  using assms
proof (induction rows)
  case Nil
  then show ?case by simp
next
  case (Cons r rows)
  then obtain spanText where r: "r = Got spanText"
    and u: "\<forall>c\<in>set ''smhdw''. c \<notin> set (trimmedText spanText)"
    by auto
  have "groupTrades rows g = Some g"
    using Cons by simp
  then show ?case
    using r groupTrade_unrecognized [OF u] by simp
qed

lemma sampleAndSave_not_timing:
  "fst (sampleAndSave v view roiValue pnlDollars pid w) \<noteq> MostlySeconds"
  by (cases v) (simp_all add: sampleAndSave_def Let_def)

lemma evaluateRow_timing_reject:
  assumes "fst (evaluateRow v cfg view w) = MostlySeconds"
  shows "\<exists>g. groupTrades (tradeRows view) emptyGroups = Some g \<and> mostlySeconds g"
proof (rule ccontr)
  assume n: "\<not> (\<exists>g. groupTrades (tradeRows view) emptyGroups = Some g \<and> mostlySeconds g)"
  have "fst (evaluateRow v cfg view w) \<noteq> MostlySeconds"
    using n sampleAndSave_not_timing
    by (simp add: evaluateRow_def Let_def mostlySeconds_def
        split: awaited.split option.split)
  then show False using assms by simp
qed

lemma emptyGroups_not_mostly: "\<not> mostlySeconds emptyGroups"
  by (simp add: mostlySeconds_def highestCount_def emptyGroups_def)

text \<open>
  C10. When the trade table has no row, or only rows whose trimmed age text contains
  none of the letters \<open>s\<close>, \<open>m\<close>, \<open>h\<close>, \<open>d\<close> and \<open>w\<close>, every group stays empty, the
  seconds group (0 texts) is not longer than the longest other group (0 texts), and the
  row is not rejected by the timing gate.
\<close>

theorem empty_trade_table_passes:
  "((\<forall>r\<in>set rows. \<exists>spanText. r = Got spanText \<and> (\<forall>c\<in>set ''smhdw''. c \<notin> set (trimmedText spanText)))
      \<longrightarrow> groupTrades rows emptyGroups = Some emptyGroups
          \<and> (tradeRows view = rows \<longrightarrow> fst (evaluateRow v cfg view w) \<noteq> MostlySeconds))
   \<and> groupTrades [] emptyGroups = Some emptyGroups
   \<and> length (seconds emptyGroups) = 0 \<and> highestCount emptyGroups = 0
   \<and> \<not> mostlySeconds emptyGroups"
proof -
  have "groupTrades rows emptyGroups = Some emptyGroups
          \<and> (tradeRows view = rows \<longrightarrow> fst (evaluateRow v cfg view w) \<noteq> MostlySeconds)"
    if u: "\<forall>r\<in>set rows. \<exists>spanText. r = Got spanText \<and> (\<forall>c\<in>set ''smhdw''. c \<notin> set (trimmedText spanText))"
  proof -
    have g: "groupTrades rows emptyGroups = Some emptyGroups"
      using u by (rule groupTrades_unrecognized)
    have "fst (evaluateRow v cfg view w) \<noteq> MostlySeconds" if "tradeRows view = rows"
      using evaluateRow_timing_reject [of v cfg view w] g that emptyGroups_not_mostly by auto
    then show ?thesis using g by blast
  qed
  moreover have "length (seconds emptyGroups) = 0" "highestCount emptyGroups = 0"
    by (simp_all add: highestCount_def emptyGroups_def)
  ultimately show ?thesis
    using emptyGroups_not_mostly by simp
qed

theorem empty_trade_table_passes_witness:
  "groupTrades [Got (Some ''1 yr''), Got None] emptyGroups = Some emptyGroups
   \<and> fst (evaluateRow Production defaultConfig
            (goodView\<lparr>tradeRows := [Got (Some ''1 yr''), Got None]\<rparr>) freshWorld)
       \<noteq> MostlySeconds"
proof -
  have t: "trimmedText (Some ''1 yr'') = ''1 yr''" "trimmedText None = []"
    by code_simp+
  have h: "\<forall>r\<in>set [Got (Some ''1 yr''), Got None].
             \<exists>spanText. r = Got spanText \<and> (\<forall>c\<in>set ''smhdw''. c \<notin> set (trimmedText spanText))"
    by (simp add: t)
  have r: "tradeRows (goodView\<lparr>tradeRows := [Got (Some ''1 yr''), Got None]\<rparr>)
             = [Got (Some ''1 yr''), Got None]"
    by simp
  note t1 = empty_trade_table_passes [of "[Got (Some ''1 yr''), Got None]"
      "goodView\<lparr>tradeRows := [Got (Some ''1 yr''), Got None]\<rparr>" Production defaultConfig
      freshWorld, THEN conjunct1, THEN mp, OF h]
  show ?thesis
    using t1 [THEN conjunct1] t1 [THEN conjunct2, THEN mp, OF r] by (intro conjI)
qed

section \<open>The gates of the filter pipeline\<close>


lemma sampleAndSave_same_outcome:
  "fst (sampleAndSave v view a b c w) = fst (sampleAndSave v view a' b' c' w')"
  by (cases v) (simp_all add: sampleAndSave_def Let_def)







section \<open>Monotonicity in the minimum PnL\<close>

lemma js_lt_le_trans: "js_lt a b \<Longrightarrow> js_le b c \<Longrightarrow> js_lt a c"
  by (cases a; cases b; cases c) auto

lemma evaluateRow_accepted_pnl:
  assumes "fst (evaluateRow v cfg view w) = Accepted"
  shows "hasSolscanLink view \<and> divUnderLinkCount view \<noteq> 0
         \<and> (\<exists>r p. revenueValue view = Got r \<and> pnlValue view = Got p
                  \<and> \<not> js_lt (parseDollars p) (MIN_PNL cfg))"
proof -
  have 1: "hasSolscanLink view"
    using assms by (cases "hasSolscanLink view") (simp_all add: evaluateRow_def)
  have 2: "divUnderLinkCount view \<noteq> 0"
    using assms 1 by (cases "divUnderLinkCount view = 0") (simp_all add: evaluateRow_def)
  obtain r where 3: "revenueValue view = Got r"
    using assms 1 2 by (cases "revenueValue view") (simp_all add: evaluateRow_def)
  obtain p where 4: "pnlValue view = Got p"
    using assms 1 2 3 by (cases "pnlValue view") (simp_all add: evaluateRow_def)
  have 5: "\<not> js_lt (parseDollars p) (MIN_PNL cfg)"
    using assms 1 2 3 4
    by (cases "js_lt (parseDollars p) (MIN_PNL cfg)") (simp_all add: evaluateRow_def Let_def)
  show ?thesis using 1 2 3 4 5 by blast
qed

lemma evaluateRow_pnl_reject:
  assumes "hasSolscanLink view" "divUnderLinkCount view \<noteq> 0"
    "revenueValue view = Got r" "pnlValue view = Got p"
    "js_lt (parseDollars p) (MIN_PNL cfg)"
  shows "fst (evaluateRow v cfg view w) = PnlTooLow"
  using assms by (simp add: evaluateRow_def Let_def)

lemma evaluateRow_pnl_pass:
  assumes "pnlValue view = Got p"
    "\<not> js_lt (parseDollars p) m" "\<not> js_lt (parseDollars p) m'"
  shows "evaluateRow v (cfg\<lparr>MIN_PNL := m\<rparr>) view w = evaluateRow v (cfg\<lparr>MIN_PNL := m'\<rparr>) view w"
  using assms
  by (cases "revenueValue view")
    (simp_all add: evaluateRow_def Let_def split: awaited.split option.split)

text \<open>
  C7. With the page, the other thresholds and the state fixed, an accepted row becomes a
  PnL rejection as soon as \<open>MIN_PNL\<close> is strictly above its computed PnL, and a row
  that is not accepted stays not accepted when \<open>MIN_PNL\<close> is raised.
\<close>

theorem min_pnl_antitone:
  "(fst (evaluateRow v (cfg\<lparr>MIN_PNL := m\<rparr>) view w) = Accepted
      \<and> pnlValue view = Got p \<and> js_lt (parseDollars p) m'
      \<longrightarrow> fst (evaluateRow v (cfg\<lparr>MIN_PNL := m'\<rparr>) view w) = PnlTooLow)
   \<and> (js_le m m' \<and> fst (evaluateRow v (cfg\<lparr>MIN_PNL := m\<rparr>) view w) \<noteq> Accepted
      \<longrightarrow> fst (evaluateRow v (cfg\<lparr>MIN_PNL := m'\<rparr>) view w) \<noteq> Accepted)"
proof -
  have a: "fst (evaluateRow v (cfg\<lparr>MIN_PNL := m'\<rparr>) view w) = PnlTooLow"
    if acc: "fst (evaluateRow v (cfg\<lparr>MIN_PNL := m\<rparr>) view w) = Accepted"
      and p: "pnlValue view = Got p" and lt: "js_lt (parseDollars p) m'"
  proof -
    obtain r where "hasSolscanLink view" "divUnderLinkCount view \<noteq> 0" "revenueValue view = Got r"
      using evaluateRow_accepted_pnl [OF acc] by blast
    then show ?thesis
      using p lt by (intro evaluateRow_pnl_reject [where r = r and p = p]) simp_all
  qed
  have b: "fst (evaluateRow v (cfg\<lparr>MIN_PNL := m'\<rparr>) view w) \<noteq> Accepted"
    if le: "js_le m m'" and rej: "fst (evaluateRow v (cfg\<lparr>MIN_PNL := m\<rparr>) view w) \<noteq> Accepted"
  proof
    assume acc: "fst (evaluateRow v (cfg\<lparr>MIN_PNL := m'\<rparr>) view w) = Accepted"
    obtain p where p: "pnlValue view = Got p" and n': "\<not> js_lt (parseDollars p) m'"
      using evaluateRow_accepted_pnl [OF acc] by auto
    have n: "\<not> js_lt (parseDollars p) m"
      using n' le js_lt_le_trans by blast
    have "evaluateRow v (cfg\<lparr>MIN_PNL := m\<rparr>) view w = evaluateRow v (cfg\<lparr>MIN_PNL := m'\<rparr>) view w"
      using p n n' by (rule evaluateRow_pnl_pass)
    then show False using acc rej by simp
  qed
  show ?thesis using a b by blast
qed

theorem min_pnl_antitone_witness:
  "fst (evaluateRow Production (defaultConfig\<lparr>MIN_PNL := Fin 2000000\<rparr>) goodView freshWorld)
     = PnlTooLow
   \<and> fst (evaluateRow Production (defaultConfig\<lparr>MIN_PNL := Fin 30000\<rparr>) botView freshWorld)
     \<noteq> Accepted"
proof -
  have h1: "fst (evaluateRow Production (defaultConfig\<lparr>MIN_PNL := Fin 25000\<rparr>) goodView freshWorld)
              = Accepted
      \<and> pnlValue goodView = Got (Some ''$1.6M'')
      \<and> js_lt (parseDollars (Some ''$1.6M'')) (Fin 2000000)"
    by code_simp
  have h2: "js_le (Fin 25000) (Fin 30000)
      \<and> fst (evaluateRow Production (defaultConfig\<lparr>MIN_PNL := Fin 25000\<rparr>) botView freshWorld)
          \<noteq> Accepted"
    by code_simp
  note t1 = min_pnl_antitone [where v = Production and cfg = defaultConfig
      and m = "Fin 25000" and view = goodView and w = freshWorld and p = "Some ''$1.6M''"
      and m' = "Fin 2000000", THEN conjunct1, THEN mp, OF h1]
  note t2 = min_pnl_antitone [where v = Production and cfg = defaultConfig
      and m = "Fin 25000" and view = botView and w = freshWorld and p = "Some ''$1.6M''"
      and m' = "Fin 30000", THEN conjunct2, THEN mp, OF h2]
  show ?thesis
    using t1 t2 by (intro conjI)
qed

section \<open>The evaluation counter\<close>

lemma loadStats_cong: "statsFile w' = statsFile w \<Longrightarrow> loadStats w' = loadStats w"
  by (simp add: loadStats_def)











section \<open>The detail modal after a failed row\<close>

text \<open>
  C4 at its failing input: the revenue of a row stays behind its loading placeholder,
  the wait for it throws after the modal has been opened, the handler of the row only
  logs the error, and the row loop goes on with the modal open. Every other way out of
  the evaluation clicks the close button first.
\<close>

theorem row_error_leaves_modal_open:
  "\<not> modalOpen freshWorld
   \<and> revenueValue stuckView = TimedOut
   \<and> processRow Production defaultConfig stuckView freshWorld
       = (RowError, freshWorld\<lparr>modalOpen := True\<rparr>)
   \<and> modalOpen (snd (processRow Production defaultConfig stuckView freshWorld))
   \<and> modalOpen (snd (processRow Exploratory defaultConfig stuckView freshWorld))"
  by code_simp

section \<open>The set of processed tokens\<close>

lemma setAdd_facts:
  "set (setAdd P x) = insert x (set P)"
  "distinct P \<Longrightarrow> distinct (setAdd P x)"
  "setAdd (setAdd P x) x = setAdd P x"
  by (auto simp: setAdd_def)

lemma foldl_setAdd:
  "distinct acc \<Longrightarrow>
     distinct (foldl setAdd acc arr) \<and> set (foldl setAdd acc arr) = set acc \<union> set arr"
proof (induction arr arbitrary: acc)
  case Nil
  then show ?case by simp
next
  case (Cons a arr)
  have "distinct (setAdd acc a)"
    using Cons.prems by (rule setAdd_facts(2))
  from Cons.IH [OF this] show ?case
    by (simp add: setAdd_facts(1))
qed

lemma newSet_facts: "distinct (newSet arr)" "set (newSet arr) = set arr"
  using foldl_setAdd [of "[]" arr] by (simp_all add: newSet_def)

lemma loadProcessedTokens_distinct: "distinct (loadProcessedTokens w)"
  by (simp add: loadProcessedTokens_def newSet_facts split: option.split)

lemma loadProcessedTokens_cong:
  "processedTokensFile w' = processedTokensFile w \<Longrightarrow>
     loadProcessedTokens w' = loadProcessedTokens w"
  by (simp add: loadProcessedTokens_def)

lemma loadProcessedTokens_Some:
  "processedTokensFile w = Some arr \<Longrightarrow> set (loadProcessedTokens w) = set arr"
  by (simp add: loadProcessedTokens_def newSet_facts)

lemma frame_closeModal:
  "processedTokensFile (closeModal w) = processedTokensFile w"
  "tokenWrites (closeModal w) = tokenWrites w"
  "diskWritable (closeModal w) = diskWritable w"
  by (simp_all add: closeModal_def)

lemma frame_increment:
  "processedTokensFile (incrementPortfoliosChecked w) = processedTokensFile w"
  "tokenWrites (incrementPortfoliosChecked w) = tokenWrites w"
  "diskWritable (incrementPortfoliosChecked w) = diskWritable w"
  by (simp_all add: incrementPortfoliosChecked_def saveStats_def)

lemma frame_savePortfolio:
  "processedTokensFile (savePortfolio pid d w) = processedTokensFile w"
  "tokenWrites (savePortfolio pid d w) = tokenWrites w"
  "diskWritable (savePortfolio pid d w) = diskWritable w"
  by (simp_all add: savePortfolio_def Let_def)

lemma frame_countRow:
  "processedTokensFile (countRow v w) = processedTokensFile w"
  "tokenWrites (countRow v w) = tokenWrites w"
  "diskWritable (countRow v w) = diskWritable w"
  by (simp_all add: countRow_def frame_increment split: variant.split)

lemmas frame_steps = frame_closeModal frame_increment frame_savePortfolio frame_countRow

lemma sampleAndSave_frame:
  "processedTokensFile (snd (sampleAndSave v view a b c w)) = processedTokensFile w"
  "tokenWrites (snd (sampleAndSave v view a b c w)) = tokenWrites w"
  "diskWritable (snd (sampleAndSave v view a b c w)) = diskWritable w"
  by (simp_all add: sampleAndSave_def Let_def frame_steps split: variant.split)

lemma evaluateRow_frame:
  "processedTokensFile (snd (evaluateRow v cfg view w)) = processedTokensFile w"
  "tokenWrites (snd (evaluateRow v cfg view w)) = tokenWrites w"
  "diskWritable (snd (evaluateRow v cfg view w)) = diskWritable w"
  by (simp_all add: evaluateRow_def Let_def frame_steps sampleAndSave_frame
      split: awaited.split option.split)

lemma processRow_frame:
  "processedTokensFile (snd (processRow v cfg view w)) = processedTokensFile w"
  "tokenWrites (snd (processRow v cfg view w)) = tokenWrites w"
  "diskWritable (snd (processRow v cfg view w)) = diskWritable w"
  by (simp_all add: processRow_def evaluateRow_frame)

lemma rowLoop_frame:
  "processedTokensFile (snd (rowLoop v cfg views rowNumber w)) = processedTokensFile w
   \<and> tokenWrites (snd (rowLoop v cfg views rowNumber w)) = tokenWrites w
   \<and> diskWritable (snd (rowLoop v cfg views rowNumber w)) = diskWritable w"
proof (induction v cfg views rowNumber w rule: rowLoop.induct)
  case (1 v cfg views rowNumber w)
  show ?case
  proof (cases "rowNumber \<le> MAX_TRADERS_PER_TOKEN cfg")
    case False
    then show ?thesis by (subst (1 2 3) rowLoop.simps) simp
  next
    case True
    obtain out w' where p: "processRow v cfg (views rowNumber) w = (out, w')"
      by (cases "processRow v cfg (views rowNumber) w") auto
    have f: "processedTokensFile w' = processedTokensFile w" "tokenWrites w' = tokenWrites w"
      "diskWritable w' = diskWritable w"
      using processRow_frame [of v cfg "views rowNumber" w] p by simp_all
    show ?thesis
    proof (cases "out = RowNotFound")
      case nf: True
      then show ?thesis using True p f by (subst (1 2 3) rowLoop.simps) simp
    next
      case nf: False
      have ih: "processedTokensFile (snd (rowLoop v cfg views (rowNumber + 1) w')) = processedTokensFile w'
          \<and> tokenWrites (snd (rowLoop v cfg views (rowNumber + 1) w')) = tokenWrites w'
          \<and> diskWritable (snd (rowLoop v cfg views (rowNumber + 1) w')) = diskWritable w'"
        using "1.IH" [OF True p [symmetric] nf] .
      show ?thesis
        using True p nf ih f
        by (subst (1 2 3) rowLoop.simps) (simp add: split_beta)
    qed
  qed
qed

lemma selectToken_invariant:
  assumes step: "\<And>P x w. I P w \<Longrightarrow> x \<notin> set P \<Longrightarrow>
                   I (setAdd P x) (saveProcessedTokens (setAdd P x) w)"
    and "I P w"
  shows "I (fst (snd (selectToken Production rows P w)))
           (snd (snd (selectToken Production rows P w)))"
  using assms(2)
proof (induction rows)
  case Nil
  then show ?case by simp
next
  case (Cons r rows)
  show ?case
  proof (cases r)
    case None
    then show ?thesis using Cons by simp
  next
    case (Some textContent)
    then show ?thesis
      using Cons step [of P w] by (simp add: Let_def setHas_def)
  qed
qed

lemma tokenLoop_invariant:
  assumes step: "\<And>P x w. I P w \<Longrightarrow> x \<notin> set P \<Longrightarrow>
                   I (setAdd P x) (saveProcessedTokens (setAdd P x) w)"
    and frame: "\<And>P w w'. I P w \<Longrightarrow> processedTokensFile w' = processedTokensFile w \<Longrightarrow>
                   tokenWrites w' = tokenWrites w \<Longrightarrow> diskWritable w' = diskWritable w \<Longrightarrow>
                   I P w'"
    and "I P w"
  shows "I (fst (snd (tokenLoop Production cfg bound pages tokenIndex P w)))
           (snd (snd (tokenLoop Production cfg bound pages tokenIndex P w)))"
  using assms(3)
proof (induction "bound - tokenIndex" arbitrary: tokenIndex P w)
  case 0
  then have "\<not> tokenIndex < bound" by simp
  then show ?case using "0.prems" by (subst (1 2) tokenLoop.simps) simp
next
  case (Suc d)
  have next_token: "I (fst (snd (tokenLoop Production cfg bound pages (tokenIndex + 1) names w')))
           (snd (snd (tokenLoop Production cfg bound pages (tokenIndex + 1) names w')))"
    if "I names w'" for names w'
    using Suc.hyps(2) that by (intro Suc.hyps(1)) auto
  have lt: "tokenIndex < bound"
    using Suc.hyps(2) by simp
  show ?case
  proof (cases "navigationFails (pages tokenIndex)")
    case True
    then show ?thesis using lt Suc.prems by (subst (1 2) tokenLoop.simps) simp
  next
    case False
    define w0 where "w0 = (if 0 < tokenIndex then closeModal w else w)"
    have i0: "I P w0"
      using Suc.prems frame [of P w "closeModal w"] by (simp add: w0_def frame_closeModal)
    obtain sel names w1 where
      s: "selectToken Production (availableRows (pages tokenIndex)) P w0 = (sel, names, w1)"
      by (cases "selectToken Production (availableRows (pages tokenIndex)) P w0") auto
    have i1: "I names w1"
      using selectToken_invariant [of I P w0 "availableRows (pages tokenIndex)"] step i0 s
      by simp
    show ?thesis
    proof (cases sel)
      case None
      then show ?thesis
        using lt False s i1 unfolding w0_def
        by (subst (1 2) tokenLoop.simps) simp
    next
      case (Some selectedTokenName)
      show ?thesis
      proof (cases "solscanLinksAppear (pages tokenIndex)")
        case l: False
        show ?thesis
          using lt False Some l s next_token [OF i1] unfolding w0_def
          by (subst (1 2) tokenLoop.simps) simp
      next
        case l: True
        define w2 where
          "w2 = snd (rowLoop Production cfg (traderViews (pages tokenIndex)) (START_FROM_ROW cfg) w1)"
        have i2: "I names w2"
          using i1 rowLoop_frame [of Production cfg "traderViews (pages tokenIndex)" "START_FROM_ROW cfg" w1]
          by (intro frame [of names w1 w2]) (simp_all add: w2_def)
        show ?thesis
          using lt False Some l s next_token [OF i2] unfolding w0_def w2_def
          by (subst (1 2) tokenLoop.simps) simp
      qed
    qed
  qed
qed
lemma mainRun_tokens:
  assumes run: "mainRun Production cfg n pages w = (e, P, w')"
  shows "distinct P \<and> set (loadProcessedTokens w) \<subseteq> set P
     \<and> (\<exists>new. tokenWrites w' = tokenWrites w @ new
           \<and> (\<forall>saved\<in>set new. set (loadProcessedTokens w) \<subseteq> set saved \<and> distinct saved))
     \<and> set (loadProcessedTokens w) \<subseteq> set (loadProcessedTokens w')
     \<and> diskWritable w' = diskWritable w
     \<and> (diskWritable w \<longrightarrow> set (loadProcessedTokens w') = set P)"
proof -
  define L where "L = loadProcessedTokens w"
  define I where "I = (\<lambda>P w1. distinct P \<and> set L \<subseteq> set P
     \<and> (\<exists>new. tokenWrites w1 = tokenWrites w @ new
           \<and> (\<forall>saved\<in>set new. set L \<subseteq> set saved \<and> distinct saved)
           \<and> processedTokensFile w1
                = (if new = [] then processedTokensFile w else Some (last new)))
     \<and> diskWritable w1 = diskWritable w
     \<and> (diskWritable w \<longrightarrow> set (loadProcessedTokens w1) = set P))"
  have I_intro: "I P0 w1"
    if "distinct P0" "set L \<subseteq> set P0" "tokenWrites w1 = tokenWrites w @ new"
      "\<forall>saved\<in>set new. set L \<subseteq> set saved \<and> distinct saved"
      "processedTokensFile w1 = (if new = [] then processedTokensFile w else Some (last new))"
      "diskWritable w1 = diskWritable w"
      "diskWritable w \<longrightarrow> set (loadProcessedTokens w1) = set P0" for P0 w1 new
    unfolding I_def using that(1,2,6,7) that(3,4,5) by (intro conjI exI [of _ new])
  have I_elim: "\<exists>new. distinct P0 \<and> set L \<subseteq> set P0 \<and> tokenWrites w1 = tokenWrites w @ new
      \<and> (\<forall>saved\<in>set new. set L \<subseteq> set saved \<and> distinct saved)
      \<and> processedTokensFile w1 = (if new = [] then processedTokensFile w else Some (last new))
      \<and> diskWritable w1 = diskWritable w
      \<and> (diskWritable w \<longrightarrow> set (loadProcessedTokens w1) = set P0)"
    if "I P0 w1" for P0 w1
  proof -
    from that have "\<exists>new. tokenWrites w1 = tokenWrites w @ new
           \<and> (\<forall>saved\<in>set new. set L \<subseteq> set saved \<and> distinct saved)
           \<and> processedTokensFile w1
                = (if new = [] then processedTokensFile w else Some (last new))"
      unfolding I_def by (elim conjE)
    then obtain new where "tokenWrites w1 = tokenWrites w @ new
           \<and> (\<forall>saved\<in>set new. set L \<subseteq> set saved \<and> distinct saved)
           \<and> processedTokensFile w1
                = (if new = [] then processedTokensFile w else Some (last new))" ..
    moreover have "distinct P0" "set L \<subseteq> set P0" "diskWritable w1 = diskWritable w"
      "diskWritable w \<longrightarrow> set (loadProcessedTokens w1) = set P0"
      using that unfolding I_def by simp_all
    ultimately show ?thesis by (intro exI [of _ new]) simp
  qed
  have save: "I Q (saveProcessedTokens Q w1)"
    if i: "I P0 w1" and q: "distinct Q" "set P0 \<subseteq> set Q" for P0 Q w1
  proof -
    from I_elim [OF i] obtain new where new: "distinct P0" "set L \<subseteq> set P0"
      "tokenWrites w1 = tokenWrites w @ new"
      "\<forall>saved\<in>set new. set L \<subseteq> set saved \<and> distinct saved"
      "processedTokensFile w1 = (if new = [] then processedTokensFile w else Some (last new))"
      "diskWritable w1 = diskWritable w"
      "diskWritable w \<longrightarrow> set (loadProcessedTokens w1) = set P0"
      by (elim exE conjE)
    have l: "set L \<subseteq> set Q"
      using new(2) q(2) by (rule subset_trans)
    show ?thesis
    proof (cases "diskWritable w1")
      case False
      then have u: "saveProcessedTokens Q w1 = w1"
        by (simp add: saveProcessedTokens_def)
      have nw: "diskWritable w \<longrightarrow> set (loadProcessedTokens w1) = set Q"
        using False new(6) by simp
      show ?thesis
        unfolding u using q(1) l new(3,4,5,6) nw by (rule I_intro)
    next
      case True
      have t: "tokenWrites (saveProcessedTokens Q w1) = tokenWrites w @ (new @ [Q])"
        using True new(3) by (simp add: saveProcessedTokens_def)
      have f: "processedTokensFile (saveProcessedTokens Q w1) = Some Q"
        using True by (simp add: saveProcessedTokens_def)
      have f': "processedTokensFile (saveProcessedTokens Q w1)
          = (if new @ [Q] = [] then processedTokensFile w else Some (last (new @ [Q])))"
        using f by simp
      have d: "diskWritable (saveProcessedTokens Q w1) = diskWritable w"
        using True new(6) by (simp add: saveProcessedTokens_def)
      have n: "\<forall>saved\<in>set (new @ [Q]). set L \<subseteq> set saved \<and> distinct saved"
        using new(4) l q(1) by simp
      have s: "diskWritable w \<longrightarrow> set (loadProcessedTokens (saveProcessedTokens Q w1)) = set Q"
        using loadProcessedTokens_Some [OF f] by simp
      show ?thesis
        using q(1) l t n f' d s by (rule I_intro)
    qed
  qed
  have I_distinct: "distinct P0" if "I P0 w1" for P0 w1
    using that unfolding I_def by (elim conjE)
  have step: "I (setAdd P0 x) (saveProcessedTokens (setAdd P0 x) w1)"
    if i: "I P0 w1" and "x \<notin> set P0" for P0 x w1
  proof -
    have "distinct (setAdd P0 x)"
      using I_distinct [OF i] by (rule setAdd_facts(2))
    moreover have "set P0 \<subseteq> set (setAdd P0 x)"
      unfolding setAdd_facts(1) by (rule subset_insertI)
    ultimately show ?thesis using i by (intro save [of P0])
  qed
  have frame: "I P0 w2"
    if i: "I P0 w1" and f: "processedTokensFile w2 = processedTokensFile w1"
      "tokenWrites w2 = tokenWrites w1" "diskWritable w2 = diskWritable w1" for P0 w1 w2
  proof -
    from I_elim [OF i] obtain new where new: "distinct P0" "set L \<subseteq> set P0"
      "tokenWrites w1 = tokenWrites w @ new"
      "\<forall>saved\<in>set new. set L \<subseteq> set saved \<and> distinct saved"
      "processedTokensFile w1 = (if new = [] then processedTokensFile w else Some (last new))"
      "diskWritable w1 = diskWritable w"
      "diskWritable w \<longrightarrow> set (loadProcessedTokens w1) = set P0"
      by (elim exE conjE)
    show ?thesis
      using new unfolding f [symmetric] loadProcessedTokens_cong [OF f(1), symmetric]
      by (rule I_intro)
  qed
  have init: "I L w"
  proof (rule I_intro [of L w "[]"])
    show "distinct L" unfolding L_def by (rule loadProcessedTokens_distinct)
  qed (simp_all add: L_def)
  obtain e0 P0 w0 where
    r: "tokenLoop Production cfg (min n (MAX_TOKENS_TO_PROCESS cfg)) pages 0 L w = (e0, P0, w0)"
    by (cases "tokenLoop Production cfg (min n (MAX_TOKENS_TO_PROCESS cfg)) pages 0 L w") auto
  have loop: "I P0 w0"
    using tokenLoop_invariant [of I L w cfg "min n (MAX_TOKENS_TO_PROCESS cfg)" pages 0,
        OF step frame init] r
    by simp
  have m: "mainRun Production cfg n pages w
      = (case e0 of Crashed \<Rightarrow> (Crashed, P0, w0)
         | Drained \<Rightarrow> (Drained, P0, saveProcessedTokens P0 w0))"
    unfolding mainRun_def using r by (simp add: L_def split: runEnd.split)
  have fin: "I P w'"
  proof (cases e0)
    case Crashed
    have "(e, P, w') = (Crashed, P0, w0)"
      unfolding run [symmetric] m Crashed by simp
    then show ?thesis using loop by simp
  next
    case Drained
    have "(e, P, w') = (Drained, P0, saveProcessedTokens P0 w0)"
      unfolding run [symmetric] m Drained by simp
    moreover have "I P0 (saveProcessedTokens P0 w0)"
      using loop I_distinct [OF loop] subset_refl by (rule save)
    ultimately show ?thesis by simp
  qed
  from I_elim [OF fin] obtain new where new: "distinct P" "set L \<subseteq> set P"
    "tokenWrites w' = tokenWrites w @ new"
    "\<forall>saved\<in>set new. set L \<subseteq> set saved \<and> distinct saved"
    "processedTokensFile w' = (if new = [] then processedTokensFile w else Some (last new))"
    "diskWritable w' = diskWritable w"
    "diskWritable w \<longrightarrow> set (loadProcessedTokens w') = set P"
    by (elim exE conjE)
  have across: "set L \<subseteq> set (loadProcessedTokens w')"
  proof (cases "new = []")
    case True
    then have "loadProcessedTokens w' = L"
      using new(5) unfolding L_def by (simp add: loadProcessedTokens_def)
    then show ?thesis by simp
  next
    case False
    then have "set (loadProcessedTokens w') = set (last new)"
      using new(5) by (simp add: loadProcessedTokens_Some)
    moreover have "last new \<in> set new" using False by simp
    ultimately show ?thesis using new(4) by simp
  qed
  have log: "\<exists>new. tokenWrites w' = tokenWrites w @ new
           \<and> (\<forall>saved\<in>set new. set L \<subseteq> set saved \<and> distinct saved)"
    using new(3,4) by (intro exI [of _ new] conjI)
  show ?thesis
    unfolding L_def [symmetric]
    using new(1,2) log across new(6,7) by (intro conjI)
qed

text \<open>
  C5. The processed tokens are a set: adding a token that the set has changes nothing,
  and the set a run loads has no duplicates even when the document has. Within a run the
  set only grows from the set that was loaded, and every document the run writes holds
  the loaded tokens without duplicates. The set that the next run loads holds the
  tokens this run loaded, and when the writes succeed it holds every token this run
  added. Nothing in the two scripts removes a token.
\<close>

theorem processed_tokens_monotone:
  "(mainRun Production cfg n pages w = (e, P, w')
      \<and> mainRun Production cfg' n' pages' w' = (e2, P2, w'') \<longrightarrow>
      distinct P \<and> set (loadProcessedTokens w) \<subseteq> set P
      \<and> (\<exists>new. tokenWrites w' = tokenWrites w @ new
            \<and> (\<forall>saved\<in>set new. set (loadProcessedTokens w) \<subseteq> set saved \<and> distinct saved))
      \<and> set (loadProcessedTokens w) \<subseteq> set (loadProcessedTokens w')
      \<and> distinct P2 \<and> set (loadProcessedTokens w') \<subseteq> set P2
      \<and> (\<exists>new. tokenWrites w'' = tokenWrites w' @ new
            \<and> (\<forall>saved\<in>set new. set (loadProcessedTokens w') \<subseteq> set saved \<and> distinct saved))
      \<and> set (loadProcessedTokens w') \<subseteq> set (loadProcessedTokens w'')
      \<and> (diskWritable w \<longrightarrow> set P \<subseteq> set P2 \<and> set P \<subseteq> set (loadProcessedTokens w'')))
   \<and> distinct (loadProcessedTokens w)
   \<and> (distinct tokens \<longrightarrow> distinct (setAdd tokens x))
   \<and> setAdd (setAdd tokens x) x = setAdd tokens x
   \<and> set tokens \<subseteq> set (setAdd tokens x)"
proof -
  have runs: "distinct P \<and> set (loadProcessedTokens w) \<subseteq> set P
      \<and> (\<exists>new. tokenWrites w' = tokenWrites w @ new
            \<and> (\<forall>saved\<in>set new. set (loadProcessedTokens w) \<subseteq> set saved \<and> distinct saved))
      \<and> set (loadProcessedTokens w) \<subseteq> set (loadProcessedTokens w')
      \<and> distinct P2 \<and> set (loadProcessedTokens w') \<subseteq> set P2
      \<and> (\<exists>new. tokenWrites w'' = tokenWrites w' @ new
            \<and> (\<forall>saved\<in>set new. set (loadProcessedTokens w') \<subseteq> set saved \<and> distinct saved))
      \<and> set (loadProcessedTokens w') \<subseteq> set (loadProcessedTokens w'')
      \<and> (diskWritable w \<longrightarrow> set P \<subseteq> set P2 \<and> set P \<subseteq> set (loadProcessedTokens w''))"
    if r1: "mainRun Production cfg n pages w = (e, P, w')"
      and r2: "mainRun Production cfg' n' pages' w' = (e2, P2, w'')"
  proof -
    note a = mainRun_tokens [OF r1]
    note b = mainRun_tokens [OF r2]
    have c: "set P \<subseteq> set P2 \<and> set P \<subseteq> set (loadProcessedTokens w'')" if "diskWritable w"
      using that a b by blast
    show ?thesis
      using a b c by blast
  qed
  have sets: "distinct (loadProcessedTokens w)
     \<and> (distinct tokens \<longrightarrow> distinct (setAdd tokens x))
     \<and> setAdd (setAdd tokens x) x = setAdd tokens x
     \<and> set tokens \<subseteq> set (setAdd tokens x)"
    using loadProcessedTokens_distinct [of w] setAdd_facts [of tokens x] by auto
  show ?thesis
    using runs sets by blast
qed

theorem processed_tokens_monotone_witness:
  "loadProcessedTokens resumedWorld = [''TOKEN_A'']
   \<and> fst (snd (mainRun Production defaultConfig 2 (\<lambda>tokenIndex. samplePage) resumedWorld))
       = [''TOKEN_A'', ''TOKEN_B'']
   \<and> set (loadProcessedTokens resumedWorld)
       \<subseteq> set (fst (snd (mainRun Production defaultConfig 2 (\<lambda>tokenIndex. samplePage) resumedWorld)))
   \<and> set (loadProcessedTokens resumedWorld)
       \<subseteq> set (loadProcessedTokens
                (snd (snd (mainRun Production defaultConfig 2 (\<lambda>tokenIndex. samplePage) resumedWorld))))"
proof -
  have h: "mainRun Production defaultConfig 2 (\<lambda>tokenIndex. samplePage) resumedWorld
        = (fst (mainRun Production defaultConfig 2 (\<lambda>tokenIndex. samplePage) resumedWorld),
           fst (snd (mainRun Production defaultConfig 2 (\<lambda>tokenIndex. samplePage) resumedWorld)),
           snd (snd (mainRun Production defaultConfig 2 (\<lambda>tokenIndex. samplePage) resumedWorld)))
     \<and> mainRun Production defaultConfig 2 (\<lambda>tokenIndex. samplePage)
          (snd (snd (mainRun Production defaultConfig 2 (\<lambda>tokenIndex. samplePage) resumedWorld)))
        = (fst (mainRun Production defaultConfig 2 (\<lambda>tokenIndex. samplePage)
                 (snd (snd (mainRun Production defaultConfig 2 (\<lambda>tokenIndex. samplePage) resumedWorld)))),
           fst (snd (mainRun Production defaultConfig 2 (\<lambda>tokenIndex. samplePage)
                 (snd (snd (mainRun Production defaultConfig 2 (\<lambda>tokenIndex. samplePage) resumedWorld))))),
           snd (snd (mainRun Production defaultConfig 2 (\<lambda>tokenIndex. samplePage)
                 (snd (snd (mainRun Production defaultConfig 2 (\<lambda>tokenIndex. samplePage) resumedWorld))))))"
    by simp
  note t = processed_tokens_monotone [where cfg = defaultConfig and n = 2
      and pages = "\<lambda>tokenIndex. samplePage" and w = resumedWorld
      and cfg' = defaultConfig and n' = 2 and pages' = "\<lambda>tokenIndex. samplePage",
      THEN conjunct1, THEN mp, OF h]
  have l: "loadProcessedTokens resumedWorld = [''TOKEN_A'']"
    by code_simp
  have r: "fst (snd (mainRun Production defaultConfig 2 (\<lambda>tokenIndex. samplePage) resumedWorld))
       = [''TOKEN_A'', ''TOKEN_B'']"
    by code_simp
  note t2 = t [THEN conjunct2, THEN conjunct1]
  note t4 = t [THEN conjunct2, THEN conjunct2, THEN conjunct2, THEN conjunct1]
  show ?thesis
    using l r t2 t4 by (intro conjI)
qed

end
